theory Spec2Isabelle
  imports Main
begin

section \<open>The PDF to images converter (scripts/pdf_to_images.py)\<close>

text \<open>
  The script has two functions: \<open>pdf_to_images\<close>, which opens a PDF with PyMuPDF, renders
  every page at scale 2 and saves it as a PNG, and \<open>main\<close>, which checks the command line
  and prints the result as JSON. Both are embedded below as functions on an explicit
  world (file system, standard output, and the sequence of library calls made so far).

  The operating system and PyMuPDF are not part of the script. Which of their calls fail,
  with which exception, and what they return, is left to a record of oracle functions
  (\<open>lib\<close>), over which every theorem quantifies. Their visible effects (a directory
  created, a file written, a handle closed) are written out. Only exceptions derived from
  Python's \<open>Exception\<close> are modelled, as those are what the library calls raise;
  asynchronous interrupts are outside the model.
\<close>

subsection \<open>Python values\<close>

datatype py_exception = PyException string

text \<open>\<open>str(e)\<close>: the textual description of an exception.\<close>

fun str_exn :: "py_exception \<Rightarrow> string" where
  "str_exn (PyException msg) = msg"

datatype pyval = PyBool bool | PyInt int | PyStr string | PyList "pyval list"

text \<open>A dict literal: its keys in insertion order, with their values.\<close>

type_synonym pydict = "(string \<times> pyval) list"

subsection \<open>The world\<close>

datatype node = Dir | File string

datatype document = Document (doc_name: string) (page_count: nat)

datatype page = Page (parent: document) (number: nat)

datatype matrix = Matrix int int int int int int

datatype pixmap = Pixmap (png_data: string)

datatype libcall =
    Makedirs string
  | Open string
  | Len document
  | LoadPage document nat
  | GetPixmap page matrix
  | Save pixmap string
  | Close document

text \<open>A call that was made, and the exception it raised, if any.\<close>

type_synonym event = "libcall \<times> py_exception option"

record world =
  fs :: "string \<rightharpoonup> node"
  stdout :: "pydict list"
  trace :: "event list"

text \<open>What a failed \<open>pix.save\<close> leaves at its path: nothing new, or a truncated file.\<close>

datatype save_outcome = Saved | SaveFailed py_exception "string option"

record lib =
  makedirs_raises :: "string \<Rightarrow> world \<Rightarrow> py_exception option"
  open_returns :: "string \<Rightarrow> world \<Rightarrow> py_exception + document"
  len_raises :: "document \<Rightarrow> world \<Rightarrow> py_exception option"
  load_page_raises :: "document \<Rightarrow> nat \<Rightarrow> world \<Rightarrow> py_exception option"
  get_pixmap_returns :: "page \<Rightarrow> matrix \<Rightarrow> world \<Rightarrow> py_exception + pixmap"
  save_outcome :: "pixmap \<Rightarrow> string \<Rightarrow> world \<Rightarrow> save_outcome"
  close_raises :: "document \<Rightarrow> world \<Rightarrow> py_exception option"

subsection \<open>Computations that may raise\<close>

type_synonym 'a io = "world \<Rightarrow> (py_exception + 'a) \<times> world"

definition io_return :: "'a \<Rightarrow> 'a io" where
  "io_return x w = (Inr x, w)"

definition io_bind :: "'a io \<Rightarrow> ('a \<Rightarrow> 'b io) \<Rightarrow> 'b io" where
  "io_bind m f w = (case m w of (Inl e, w') \<Rightarrow> (Inl e, w') | (Inr x, w') \<Rightarrow> f x w')"

text \<open>\<open>try: ... except Exception as e: ...\<close> around a body whose value is returned.\<close>

definition try_except :: "'a io \<Rightarrow> (py_exception \<Rightarrow> 'a) \<Rightarrow> world \<Rightarrow> 'a \<times> world" where
  "try_except body handler w = (case body w of (Inl e, w') \<Rightarrow> (handler e, w') | (Inr x, w') \<Rightarrow> (x, w'))"

definition log :: "libcall \<Rightarrow> py_exception option \<Rightarrow> world \<Rightarrow> world" where
  "log c out w = w\<lparr>trace := trace w @ [(c, out)]\<rparr>"

subsection \<open>The library calls\<close>

text \<open>\<open>os.makedirs(output_dir, exist_ok=True)\<close>\<close>

definition os_makedirs :: "lib \<Rightarrow> string \<Rightarrow> unit io" where
  "os_makedirs L d w =
     (case makedirs_raises L d w of
        Some e \<Rightarrow> (Inl e, log (Makedirs d) (Some e) w)
      | None \<Rightarrow>
          (Inr (), log (Makedirs d) None
             (w\<lparr>fs := (if fs w d = None then (fs w)(d \<mapsto> Dir) else fs w)\<rparr>)))"

text \<open>\<open>os.path.exists(path)\<close>\<close>

definition os_path_exists :: "string \<Rightarrow> world \<Rightarrow> bool" where
  "os_path_exists path w = (fs w path \<noteq> None)"

text \<open>\<open>os.path.join(a, b)\<close> (posixpath, two components)\<close>

fun startswith_sep :: "string \<Rightarrow> bool" where
  "startswith_sep [] = False"
| "startswith_sep (c # cs) = (c = CHR ''/'')"

definition os_path_join :: "string \<Rightarrow> string \<Rightarrow> string" where
  "os_path_join a b =
     (if startswith_sep b then b
      else if a = [] \<or> last a = CHR ''/'' then a @ b
      else a @ ''/'' @ b)"

text \<open>\<open>fitz.open(pdf_path)\<close>\<close>

definition fitz_open :: "lib \<Rightarrow> string \<Rightarrow> document io" where
  "fitz_open L path w =
     (case open_returns L path w of
        Inl e \<Rightarrow> (Inl e, log (Open path) (Some e) w)
      | Inr doc \<Rightarrow> (Inr doc, log (Open path) None w))"

text \<open>\<open>len(doc)\<close>\<close>

definition doc_len :: "lib \<Rightarrow> document \<Rightarrow> nat io" where
  "doc_len L doc w =
     (case len_raises L doc w of
        Some e \<Rightarrow> (Inl e, log (Len doc) (Some e) w)
      | None \<Rightarrow> (Inr (page_count doc), log (Len doc) None w))"

text \<open>\<open>doc.load_page(page_num)\<close>\<close>

definition load_page :: "lib \<Rightarrow> document \<Rightarrow> nat \<Rightarrow> page io" where
  "load_page L doc page_num w =
     (case load_page_raises L doc page_num w of
        Some e \<Rightarrow> (Inl e, log (LoadPage doc page_num) (Some e) w)
      | None \<Rightarrow> (Inr (Page doc page_num), log (LoadPage doc page_num) None w))"

text \<open>\<open>fitz.Matrix(sx, sy)\<close>: the scaling matrix.\<close>

definition fitz_Matrix :: "int \<Rightarrow> int \<Rightarrow> matrix" where
  "fitz_Matrix sx sy = Matrix sx 0 0 sy 0 0"

text \<open>\<open>page.get_pixmap(matrix=mat)\<close>\<close>

definition get_pixmap :: "lib \<Rightarrow> page \<Rightarrow> matrix \<Rightarrow> pixmap io" where
  "get_pixmap L pg mat w =
     (case get_pixmap_returns L pg mat w of
        Inl e \<Rightarrow> (Inl e, log (GetPixmap pg mat) (Some e) w)
      | Inr pix \<Rightarrow> (Inr pix, log (GetPixmap pg mat) None w))"

text \<open>\<open>pix.save(image_path)\<close>\<close>

definition pix_save :: "lib \<Rightarrow> pixmap \<Rightarrow> string \<Rightarrow> unit io" where
  "pix_save L pix path w =
     (case save_outcome L pix path w of
        Saved \<Rightarrow>
          (Inr (), log (Save pix path) None (w\<lparr>fs := (fs w)(path \<mapsto> File (png_data pix))\<rparr>))
      | SaveFailed e None \<Rightarrow> (Inl e, log (Save pix path) (Some e) w)
      | SaveFailed e (Some part) \<Rightarrow>
          (Inl e, log (Save pix path) (Some e) (w\<lparr>fs := (fs w)(path \<mapsto> File part)\<rparr>)))"

text \<open>\<open>doc.close()\<close>; a close that raises leaves the handle open.\<close>

definition doc_close :: "lib \<Rightarrow> document \<Rightarrow> unit io" where
  "doc_close L doc w =
     (case close_raises L doc w of
        Some e \<Rightarrow> (Inl e, log (Close doc) (Some e) w)
      | None \<Rightarrow> (Inr (), log (Close doc) None w))"

subsection \<open>Decimal numerals\<close>

text \<open>\<open>str(n)\<close> for a non-negative integer, as the f-string formats it.\<close>

definition digit_char :: "nat \<Rightarrow> char" where
  "digit_char d = ''0123456789'' ! d"

function str_nat :: "nat \<Rightarrow> string" where
  "str_nat n = (if n < 10 then [digit_char n] else str_nat (n div 10) @ [digit_char (n mod 10)])"
  by pat_completeness auto
termination
  by (relation "measure id") auto

declare str_nat.simps [simp del]

subsection \<open>pdf_to_images\<close>

text \<open>The file name of a page: \<open>os.path.join(output_dir, f"page-{page_num + 1}.png")\<close>.\<close>

definition page_image_path :: "string \<Rightarrow> nat \<Rightarrow> string" where
  "page_image_path output_dir page_num =
     os_path_join output_dir (''page-'' @ str_nat (page_num + 1) @ ''.png'')"

text \<open>The body of the loop over the pages; its value is the path appended to the list.\<close>

definition page_body :: "lib \<Rightarrow> document \<Rightarrow> string \<Rightarrow> nat \<Rightarrow> string io" where
  "page_body L doc output_dir page_num =
     io_bind (load_page L doc page_num) (\<lambda>pg.
       let mat = fitz_Matrix 2 2 in
       io_bind (get_pixmap L pg mat) (\<lambda>pix.
         let image_path = page_image_path output_dir page_num in
         io_bind (pix_save L pix image_path) (\<lambda>_.
           io_return image_path)))"

text \<open>\<open>for page_num in range(...)\<close>, with the list of paths built so far.\<close>

fun for_pages :: "lib \<Rightarrow> document \<Rightarrow> string \<Rightarrow> nat list \<Rightarrow> string list \<Rightarrow> string list io" where
  "for_pages L doc output_dir [] image_paths = io_return image_paths"
| "for_pages L doc output_dir (page_num # rest) image_paths =
     io_bind (page_body L doc output_dir page_num) (\<lambda>image_path.
       for_pages L doc output_dir rest (image_paths @ [image_path]))"

definition success_dict :: "string list \<Rightarrow> pydict" where
  "success_dict image_paths =
     [(''success'', PyBool True),
      (''pages'', PyInt (int (length image_paths))),
      (''image_paths'', PyList (map PyStr image_paths))]"

definition failure_dict :: "string \<Rightarrow> pydict" where
  "failure_dict msg = [(''success'', PyBool False), (''error'', PyStr msg)]"

definition pdf_to_images_body :: "lib \<Rightarrow> string \<Rightarrow> string \<Rightarrow> pydict io" where
  "pdf_to_images_body L pdf_path output_dir =
     io_bind (os_makedirs L output_dir) (\<lambda>_.
       io_bind (fitz_open L pdf_path) (\<lambda>doc.
         io_bind (doc_len L doc) (\<lambda>n.
           io_bind (for_pages L doc output_dir [0..<n] []) (\<lambda>image_paths.
             io_bind (doc_close L doc) (\<lambda>_.
               io_return (success_dict image_paths))))))"

definition pdf_to_images :: "lib \<Rightarrow> string \<Rightarrow> string \<Rightarrow> world \<Rightarrow> pydict \<times> world" where
  "pdf_to_images L pdf_path output_dir =
     try_except (pdf_to_images_body L pdf_path output_dir) (\<lambda>e. failure_dict (str_exn e))"

subsection \<open>main\<close>

text \<open>\<open>print(json.dumps(d))\<close>: one line on standard output holding the object \<open>d\<close>.\<close>

definition print_json :: "pydict \<Rightarrow> world \<Rightarrow> world" where
  "print_json d w = w\<lparr>stdout := stdout w @ [d]\<rparr>"

definition usage_message :: string where
  "usage_message = ''Usage: python pdf_to_images.py <pdf_path> <output_dir>''"

text \<open>
  \<open>main\<close> on \<open>sys.argv\<close>; its value is the exit status of the process (1 from
  \<open>sys.exit(1)\<close>, 0 when \<open>main\<close> returns) and the world it leaves.
\<close>

definition main :: "lib \<Rightarrow> string list \<Rightarrow> world \<Rightarrow> nat \<times> world" where
  "main L argv w =
     (if length argv \<noteq> 3 then (1, print_json (failure_dict usage_message) w)
      else
        let pdf_path = argv ! 1; output_dir = argv ! 2 in
        if \<not> os_path_exists pdf_path w then
          (1, print_json (failure_dict (''PDF file not found: '' @ pdf_path)) w)
        else
          let (result, w') = pdf_to_images L pdf_path output_dir w in
          (0, print_json result w'))"

subsection \<open>Runs and their events\<close>

text \<open>The calls a run made: the part of the final trace that it added.\<close>

definition new_events :: "world \<Rightarrow> world \<Rightarrow> event list" where
  "new_events w w' = drop (length (trace w)) (trace w')"

text \<open>The three calls of one page that is rendered and saved without an exception.\<close>

definition page_calls :: "document \<Rightarrow> string \<Rightarrow> nat \<Rightarrow> pixmap \<Rightarrow> event list" where
  "page_calls doc output_dir page_num pix =
     [(LoadPage doc page_num, None),
      (GetPixmap (Page doc page_num) (Matrix 2 0 0 2 0 0), None),
      (Save pix (page_image_path output_dir page_num), None)]"

text \<open>The calls the loop may make for the page numbers \<open>ns\<close>.\<close>

fun page_call :: "document \<Rightarrow> string \<Rightarrow> nat list \<Rightarrow> libcall \<Rightarrow> bool" where
  "page_call doc output_dir ns (LoadPage d i) = (d = doc \<and> i \<in> set ns)"
| "page_call doc output_dir ns (GetPixmap pg m) =
     (parent pg = doc \<and> number pg \<in> set ns \<and> m = Matrix 2 0 0 2 0 0)"
| "page_call doc output_dir ns (Save pix q) = (q \<in> page_image_path output_dir ` set ns)"
| "page_call doc output_dir ns _ = False"

text \<open>What holds of every call of a run that fails: scale 2, and no close that returns.\<close>

fun script_event :: "event \<Rightarrow> bool" where
  "script_event (GetPixmap pg m, out) = (m = Matrix 2 0 0 2 0 0)"
| "script_event (Close d, out) = (out \<noteq> None)"
| "script_event _ = True"

definition all_ok :: "event list \<Rightarrow> bool" where
  "all_ok evs = list_all (\<lambda>ev. snd ev = None) evs"

text \<open>Every file that a call of \<open>evs\<close> saved is on disk with the content saved.\<close>

definition saved_files_kept :: "event list \<Rightarrow> world \<Rightarrow> bool" where
  "saved_files_kept evs w =
     (\<forall>pix q. (Save pix q, None) \<in> set evs \<longrightarrow> fs w q = Some (File (png_data pix)))"

subsection \<open>Example libraries and an example world\<close>

text \<open>
  A library in which every call succeeds and every PDF has two pages, and one in which
  the disk is full when the second page is saved.
\<close>

definition example_world :: world where
  "example_world =
     \<lparr>fs = [''in.pdf'' \<mapsto> File ''%PDF-1.7'', ''docs'' \<mapsto> Dir], stdout = [], trace = []\<rparr>"

definition example_lib :: lib where
  "example_lib =
     \<lparr>makedirs_raises = (\<lambda>d w. None),
      open_returns = (\<lambda>path w.
        case fs w path of
          Some (File _) \<Rightarrow> Inr (Document path 2)
        | _ \<Rightarrow> Inl (PyException ''cannot open file'')),
      len_raises = (\<lambda>doc w. None),
      load_page_raises = (\<lambda>doc n w. None),
      get_pixmap_returns = (\<lambda>pg m w. Inr (Pixmap (''PNG'' @ str_nat (number pg)))),
      save_outcome = (\<lambda>pix path w. Saved),
      close_raises = (\<lambda>doc w. None)\<rparr>"

definition disk_full_lib :: lib where
  "disk_full_lib =
     example_lib\<lparr>save_outcome := (\<lambda>pix path w.
        if path = ''out/page-2.png''
        then SaveFailed (PyException ''No space left on device'') (Some ''PN'')
        else Saved)\<rparr>"

section \<open>Properties\<close>

subsection \<open>File names\<close>

lemma str_nat_not_Nil: "str_nat n \<noteq> []"
  by (subst str_nat.simps) simp

lemma digit_char_inj: "a < 10 \<Longrightarrow> b < 10 \<Longrightarrow> digit_char a = digit_char b \<Longrightarrow> a = b"
proof -
  assume a: "a < 10" and b: "b < 10" and eq: "digit_char a = digit_char b"
  have d: "distinct ''0123456789''" by simp
  have "a < length ''0123456789''" "b < length ''0123456789''" using a b by simp_all
  with d eq show "a = b" unfolding digit_char_def
    using nth_eq_iff_index_eq by blast
qed

lemma str_nat_inj: "str_nat n = str_nat m \<Longrightarrow> n = m"
proof (induction n arbitrary: m rule: str_nat.induct)
  case (1 n)
  show ?case
  proof (cases "n < 10")
    case True
    then have sn: "str_nat n = [digit_char n]" by (subst str_nat.simps) simp
    show ?thesis
    proof (cases "m < 10")
      case True
      then have "str_nat m = [digit_char m]" by (subst str_nat.simps) simp
      with sn "1.prems" have "digit_char n = digit_char m" by simp
      with \<open>n < 10\<close> True show ?thesis by (rule digit_char_inj)
    next
      case False
      then have "str_nat m = str_nat (m div 10) @ [digit_char (m mod 10)]"
        by (subst str_nat.simps) simp
      with sn "1.prems" have "str_nat (m div 10) = []" by simp
      then show ?thesis using str_nat_not_Nil by blast
    qed
  next
    case False
    then have sn: "str_nat n = str_nat (n div 10) @ [digit_char (n mod 10)]"
      by (subst str_nat.simps) simp
    show ?thesis
    proof (cases "m < 10")
      case True
      then have "str_nat m = [digit_char m]" by (subst str_nat.simps) simp
      with sn "1.prems" have "str_nat (n div 10) = []" by simp
      then show ?thesis using str_nat_not_Nil by blast
    next
      case mf: False
      then have "str_nat m = str_nat (m div 10) @ [digit_char (m mod 10)]"
        by (subst str_nat.simps) simp
      with sn "1.prems" have a: "str_nat (n div 10) = str_nat (m div 10)"
        and b: "digit_char (n mod 10) = digit_char (m mod 10)" by simp_all
      from "1.IH" [OF False a] have q: "n div 10 = m div 10" .
      have r: "n mod 10 = m mod 10" by (rule digit_char_inj [OF _ _ b]) simp_all
      from q r show ?thesis by (metis div_mult_mod_eq)
    qed
  qed
qed

lemma os_path_join_page:
  "os_path_join a (''page-'' @ s) =
     (if a = [] \<or> last a = CHR ''/'' then a else a @ ''/'') @ ''page-'' @ s"
  by (simp add: os_path_join_def)

lemma page_image_path_inj: "page_image_path out i = page_image_path out j \<Longrightarrow> i = j"
  using str_nat_inj [of "i + 1" "j + 1"]
  by (simp add: page_image_path_def os_path_join_page del: append_Cons split: if_splits)

subsection \<open>One page, and the loop\<close>

lemma page_body_cases:
  assumes "page_body L doc out n w = (r, w')"
  obtains
    (load_fail) e where "r = Inl e" "trace w' = trace w @ [(LoadPage doc n, Some e)]"
      "fs w' = fs w" "stdout w' = stdout w"
  | (render_fail) e where "r = Inl e"
      "trace w' = trace w @ [(LoadPage doc n, None), (GetPixmap (Page doc n) (Matrix 2 0 0 2 0 0), Some e)]"
      "fs w' = fs w" "stdout w' = stdout w"
  | (save_fail) e pix where "r = Inl e"
      "trace w' = trace w @ [(LoadPage doc n, None), (GetPixmap (Page doc n) (Matrix 2 0 0 2 0 0), None),
          (Save pix (page_image_path out n), Some e)]"
      "\<forall>q. q \<noteq> page_image_path out n \<longrightarrow> fs w' q = fs w q" "stdout w' = stdout w"
  | (saved) pix where "r = Inr (page_image_path out n)"
      "trace w' = trace w @ [(LoadPage doc n, None), (GetPixmap (Page doc n) (Matrix 2 0 0 2 0 0), None),
          (Save pix (page_image_path out n), None)]"
      "fs w' = (fs w)(page_image_path out n \<mapsto> File (png_data pix))" "stdout w' = stdout w"
  using assms
  unfolding page_body_def io_bind_def io_return_def load_page_def get_pixmap_def pix_save_def
    fitz_Matrix_def log_def Let_def
  by (auto split: option.splits sum.splits save_outcome.splits prod.splits)

lemma page_call_mono: "page_call doc out ns c \<Longrightarrow> set ns \<subseteq> set ms \<Longrightarrow> page_call doc out ms c"
  by (cases c) auto

lemma for_pages_run:
  assumes "for_pages L doc out ns acc w = (r, w')" and "distinct ns"
  shows "\<exists>evs. trace w' = trace w @ evs \<and> stdout w' = stdout w
     \<and> (\<forall>q. q \<notin> page_image_path out ` set ns \<longrightarrow> fs w' q = fs w q)
     \<and> (\<forall>ev \<in> set evs. page_call doc out ns (fst ev))
     \<and> saved_files_kept evs w'
     \<and> (case r of
          Inr paths \<Rightarrow> paths = acc @ map (page_image_path out) ns
            \<and> (\<exists>pixs. length pixs = length ns \<and> evs = concat (map2 (page_calls doc out) ns pixs))
        | Inl e \<Rightarrow> \<exists>evs0 c. evs = evs0 @ [(c, Some e)] \<and> all_ok evs0)"
  using assms
proof (induction ns arbitrary: acc w)
  case Nil
  then show ?case by (auto simp add: io_return_def saved_files_kept_def)
next
  case (Cons n ns)
  obtain r1 w1 where pb: "page_body L doc out n w = (r1, w1)" by (cases "page_body L doc out n w")
  from Cons.prems have dn: "distinct ns" and nn: "n \<notin> set ns" by simp_all
  have pn: "page_image_path out n \<notin> page_image_path out ` set ns"
    using nn page_image_path_inj by blast
  from pb show ?case
  proof (cases rule: page_body_cases)
    case (load_fail e)
    with pb Cons.prems(1) have "r = Inl e" "w' = w1" by (simp_all add: io_bind_def)
    with load_fail show ?thesis
      by (intro exI [of _ "[(LoadPage doc n, Some e)]"]) (simp add: saved_files_kept_def all_ok_def)
  next
    case (render_fail e)
    with pb Cons.prems(1) have "r = Inl e" "w' = w1" by (simp_all add: io_bind_def)
    with render_fail show ?thesis
      by (intro exI [of _ "[(LoadPage doc n, None), (GetPixmap (Page doc n) (Matrix 2 0 0 2 0 0), Some e)]"])
        (simp add: saved_files_kept_def all_ok_def)
  next
    case (save_fail e pix)
    with pb Cons.prems(1) have "r = Inl e" "w' = w1" by (simp_all add: io_bind_def)
    with save_fail show ?thesis
      by (intro exI [of _ "[(LoadPage doc n, None), (GetPixmap (Page doc n) (Matrix 2 0 0 2 0 0), None),
          (Save pix (page_image_path out n), Some e)]"])
        (auto simp add: saved_files_kept_def all_ok_def)
  next
    case (saved pix)
    with pb Cons.prems(1) have rest: "for_pages L doc out ns (acc @ [page_image_path out n]) w1 = (r, w')"
      by (simp add: io_bind_def)
    from Cons.IH [OF rest dn] obtain evs where
      tr: "trace w' = trace w1 @ evs" and so: "stdout w' = stdout w1"
      and frame: "\<forall>q. q \<notin> page_image_path out ` set ns \<longrightarrow> fs w' q = fs w1 q"
      and calls: "\<forall>ev \<in> set evs. page_call doc out ns (fst ev)"
      and kept: "saved_files_kept evs w'"
      and res: "case r of
          Inr paths \<Rightarrow> paths = (acc @ [page_image_path out n]) @ map (page_image_path out) ns
            \<and> (\<exists>pixs. length pixs = length ns \<and> evs = concat (map2 (page_calls doc out) ns pixs))
        | Inl e \<Rightarrow> \<exists>evs0 c. evs = evs0 @ [(c, Some e)] \<and> all_ok evs0"
      by blast
    let ?evs = "page_calls doc out n pix @ evs"
    have 1: "trace w' = trace w @ ?evs" using tr saved by (simp add: page_calls_def)
    have 2: "stdout w' = stdout w" using so saved by simp
    have 3: "\<forall>q. q \<notin> page_image_path out ` set (n # ns) \<longrightarrow> fs w' q = fs w q"
      using frame saved by simp
    have 4: "\<forall>ev \<in> set ?evs. page_call doc out (n # ns) (fst ev)"
    proof
      fix ev assume "ev \<in> set ?evs"
      then consider "ev \<in> set (page_calls doc out n pix)" | "ev \<in> set evs" by auto
      then show "page_call doc out (n # ns) (fst ev)"
      proof cases
        case 1
        then show ?thesis by (auto simp: page_calls_def)
      next
        case 2
        with calls have "page_call doc out ns (fst ev)" by blast
        then show ?thesis by (rule page_call_mono) auto
      qed
    qed
    have 5: "saved_files_kept ?evs w'"
      unfolding saved_files_kept_def
    proof (intro allI impI)
      fix px q assume "(Save px q, None) \<in> set ?evs"
      then consider "px = pix" "q = page_image_path out n" | "(Save px q, None) \<in> set evs"
        by (auto simp: page_calls_def)
      then show "fs w' q = Some (File (png_data px))"
      proof cases
        case 1
        with frame pn have "fs w' q = fs w1 q" by blast
        with 1 saved show ?thesis by simp
      next
        case 2
        with kept show ?thesis by (simp add: saved_files_kept_def)
      qed
    qed
    have 6: "case r of
          Inr paths \<Rightarrow> paths = acc @ map (page_image_path out) (n # ns)
            \<and> (\<exists>pixs. length pixs = length (n # ns) \<and> ?evs = concat (map2 (page_calls doc out) (n # ns) pixs))
        | Inl e \<Rightarrow> \<exists>evs0 c. ?evs = evs0 @ [(c, Some e)] \<and> all_ok evs0"
    proof (cases r)
      case (Inl e)
      with res obtain evs0 c where "evs = evs0 @ [(c, Some e)]" "all_ok evs0" by auto
      then have "?evs = (page_calls doc out n pix @ evs0) @ [(c, Some e)]"
        "all_ok (page_calls doc out n pix @ evs0)"
        by (simp_all add: all_ok_def page_calls_def)
      with Inl show ?thesis by (auto simp del: append_assoc)
    next
      case (Inr paths)
      with res obtain pixs where "length pixs = length ns"
        "evs = concat (map2 (page_calls doc out) ns pixs)" and p: "paths = (acc @ [page_image_path out n]) @ map (page_image_path out) ns" by auto
      then have "length (pix # pixs) = length (n # ns) \<and>
        ?evs = concat (map2 (page_calls doc out) (n # ns) (pix # pixs))" by simp
      then have "\<exists>pixs'. length pixs' = length (n # ns) \<and>
        ?evs = concat (map2 (page_calls doc out) (n # ns) pixs')" by (rule exI)
      with Inr p show ?thesis by simp
    qed
    from 1 2 3 4 5 6 show ?thesis by blast
  qed
qed

subsection \<open>The body of pdf_to_images\<close>

lemma page_call_script_event: "page_call doc out ns (fst ev) \<Longrightarrow> script_event ev"
  by (cases ev, cases "fst ev") auto

lemma os_makedirs_cases:
  assumes "os_makedirs L d w = (r, w')"
  obtains (raised) e where "r = Inl e" "trace w' = trace w @ [(Makedirs d, Some e)]"
      "stdout w' = stdout w" "fs w' = fs w"
  | (returned) "r = Inr ()" "trace w' = trace w @ [(Makedirs d, None)]" "stdout w' = stdout w"
  using assms unfolding os_makedirs_def log_def by (auto split: option.splits)

lemma fitz_open_cases:
  assumes "fitz_open L p w = (r, w')"
  obtains (raised) e where "r = Inl e" "trace w' = trace w @ [(Open p, Some e)]"
      "stdout w' = stdout w" "fs w' = fs w"
  | (returned) doc where "r = Inr doc" "open_returns L p w = Inr doc"
      "trace w' = trace w @ [(Open p, None)]" "stdout w' = stdout w" "fs w' = fs w"
proof (cases "open_returns L p w")
  case (Inl e)
  with assms show ?thesis by (intro raised [of e]) (auto simp add: fitz_open_def log_def)
next
  case (Inr doc)
  with assms show ?thesis by (intro returned [of doc]) (auto simp add: fitz_open_def log_def)
qed

lemma doc_len_cases:
  assumes "doc_len L doc w = (r, w')"
  obtains (raised) e where "r = Inl e" "trace w' = trace w @ [(Len doc, Some e)]"
      "stdout w' = stdout w" "fs w' = fs w"
  | (returned) "r = Inr (page_count doc)" "trace w' = trace w @ [(Len doc, None)]"
      "stdout w' = stdout w" "fs w' = fs w"
  using assms unfolding doc_len_def log_def by (auto split: option.splits)

lemma doc_close_cases:
  assumes "doc_close L doc w = (r, w')"
  obtains (raised) e where "r = Inl e" "trace w' = trace w @ [(Close doc, Some e)]"
      "stdout w' = stdout w" "fs w' = fs w"
  | (returned) "r = Inr ()" "trace w' = trace w @ [(Close doc, None)]"
      "stdout w' = stdout w" "fs w' = fs w"
  using assms unfolding doc_close_def log_def by (auto split: option.splits)

lemma pdf_to_images_body_cases:
  assumes "pdf_to_images_body L p out w = (r, w')"
  obtains
    (failed) e evs c where "r = Inl e" "trace w' = trace w @ evs @ [(c, Some e)]" "all_ok evs"
      "\<forall>ev \<in> set (evs @ [(c, Some e)]). script_event ev" "saved_files_kept evs w'"
      "stdout w' = stdout w"
  | (succeeded) doc pixs where "open_returns L p (snd (os_makedirs L out w)) = Inr doc"
      "r = Inr (success_dict (map (page_image_path out) [0..<page_count doc]))"
      "length pixs = page_count doc"
      "trace w' = trace w @ [(Makedirs out, None), (Open p, None), (Len doc, None)]
         @ concat (map2 (page_calls doc out) [0..<page_count doc] pixs) @ [(Close doc, None)]"
      "saved_files_kept (concat (map2 (page_calls doc out) [0..<page_count doc] pixs)) w'"
      "stdout w' = stdout w"
proof -
  obtain r1 w1 where mk: "os_makedirs L out w = (r1, w1)" by (cases "os_makedirs L out w")
  from mk show ?thesis
  proof (cases rule: os_makedirs_cases)
    case (raised e)
    with mk assms have "r = Inl e" "w' = w1" by (simp_all add: pdf_to_images_body_def io_bind_def)
    with raised show ?thesis
      by (intro failed [of e "[]" "Makedirs out"]) (simp_all add: all_ok_def saved_files_kept_def)
  next
    case returned
    note d1 = returned
    obtain r2 w2 where op: "fitz_open L p w1 = (r2, w2)" by (cases "fitz_open L p w1")
    from op show ?thesis
    proof (cases rule: fitz_open_cases)
      case (raised e)
      with mk d1 op assms have "r = Inl e" "w' = w2"
        by (simp_all add: pdf_to_images_body_def io_bind_def)
      with raised d1 show ?thesis
        by (intro failed [of e "[(Makedirs out, None)]" "Open p"])
          (simp_all add: all_ok_def saved_files_kept_def)
    next
      case (returned doc)
      note d2 = returned
      obtain r3 w3 where ln: "doc_len L doc w2 = (r3, w3)" by (cases "doc_len L doc w2")
      from ln show ?thesis
      proof (cases rule: doc_len_cases)
        case (raised e)
        with mk d1 op d2 ln assms have "r = Inl e" "w' = w3"
          by (simp_all add: pdf_to_images_body_def io_bind_def)
        with raised d1 d2 show ?thesis
          by (intro failed [of e "[(Makedirs out, None), (Open p, None)]" "Len doc"])
            (simp_all add: all_ok_def saved_files_kept_def)
      next
        case returned
        note d3 = returned
        let ?n = "page_count doc"
        let ?pre = "[(Makedirs out, None), (Open p, None), (Len doc, None)]"
        have tr3: "trace w3 = trace w @ ?pre" using d1 d2 d3 by simp
        obtain r4 w4 where fp: "for_pages L doc out [0..<?n] [] w3 = (r4, w4)"
          by (cases "for_pages L doc out [0..<?n] [] w3")
        from for_pages_run [OF fp] obtain evs where
          tr4: "trace w4 = trace w3 @ evs" and so4: "stdout w4 = stdout w3"
          and calls: "\<forall>ev \<in> set evs. page_call doc out [0..<?n] (fst ev)"
          and kept: "saved_files_kept evs w4"
          and res: "case r4 of
              Inr paths \<Rightarrow> paths = [] @ map (page_image_path out) [0..<?n]
                \<and> (\<exists>pixs. length pixs = length [0..<?n] \<and> evs = concat (map2 (page_calls doc out) [0..<?n] pixs))
            | Inl e \<Rightarrow> \<exists>evs0 c. evs = evs0 @ [(c, Some e)] \<and> all_ok evs0"
          by auto
        have se: "\<forall>ev \<in> set evs. script_event ev"
          using calls page_call_script_event by blast
        show ?thesis
        proof (cases r4)
          case (Inl e)
          with mk d1 op d2 ln d3 fp assms have re: "r = Inl e" "w' = w4"
            by (simp_all add: pdf_to_images_body_def io_bind_def)
          from Inl res obtain evs0 c where ev: "evs = evs0 @ [(c, Some e)]" and ok: "all_ok evs0"
            by auto
          have k0: "saved_files_kept (?pre @ evs0) w4"
            using kept ev by (auto simp add: saved_files_kept_def)
          show ?thesis
          proof (rule failed [of e "?pre @ evs0" c])
            show "r = Inl e" by (rule re)
            show "trace w' = trace w @ (?pre @ evs0) @ [(c, Some e)]"
              using re tr3 tr4 ev by simp
            show "all_ok (?pre @ evs0)" using ok by (simp add: all_ok_def)
            show "\<forall>ev \<in> set ((?pre @ evs0) @ [(c, Some e)]). script_event ev"
              using se ev by auto
            show "saved_files_kept (?pre @ evs0) w'" using k0 re by simp
            show "stdout w' = stdout w" using re so4 d1 d2 d3 by simp
          qed
        next
          case (Inr paths)
          with res obtain pixs where px: "length pixs = ?n"
            and ev: "evs = concat (map2 (page_calls doc out) [0..<?n] pixs)"
            and pa: "paths = map (page_image_path out) [0..<?n]" by auto
          obtain r5 w5 where cl: "doc_close L doc w4 = (r5, w5)" by (cases "doc_close L doc w4")
          have ok: "all_ok evs" unfolding ev all_ok_def
            by (auto simp add: list_all_iff page_calls_def dest!: set_zip_leftD [rotated] in_set_zipE)
          from cl show ?thesis
          proof (cases rule: doc_close_cases)
            case (raised e)
            with mk d1 op d2 ln d3 fp Inr cl assms have re: "r = Inl e" "w' = w5"
              by (simp_all add: pdf_to_images_body_def io_bind_def)
            show ?thesis
            proof (rule failed [of e "?pre @ evs" "Close doc"])
              show "r = Inl e" by (rule re)
              show "trace w' = trace w @ (?pre @ evs) @ [(Close doc, Some e)]"
                using re tr3 tr4 raised by simp
              show "all_ok (?pre @ evs)" using ok by (simp add: all_ok_def)
              show "\<forall>ev \<in> set ((?pre @ evs) @ [(Close doc, Some e)]). script_event ev"
                using se by auto
              show "saved_files_kept (?pre @ evs) w'"
                using kept raised re by (auto simp add: saved_files_kept_def)
              show "stdout w' = stdout w" using re so4 d1 d2 d3 raised by simp
            qed
          next
            case returned
            with mk d1 op d2 ln d3 fp Inr cl assms pa
            have re: "r = Inr (success_dict (map (page_image_path out) [0..<?n]))" "w' = w5"
              by (simp_all add: pdf_to_images_body_def io_bind_def io_return_def)
            show ?thesis
            proof (rule succeeded [of doc pixs])
              show "open_returns L p (snd (os_makedirs L out w)) = Inr doc"
                using mk d2 by simp
              show "r = Inr (success_dict (map (page_image_path out) [0..<?n]))" by (rule re)
              show "length pixs = ?n" by (rule px)
              show "trace w' = trace w @ ?pre @ concat (map2 (page_calls doc out) [0..<?n] pixs) @ [(Close doc, None)]"
                using re tr3 tr4 returned ev by simp
              show "saved_files_kept (concat (map2 (page_calls doc out) [0..<?n] pixs)) w'"
                using kept returned re ev by (auto simp add: saved_files_kept_def)
              show "stdout w' = stdout w" using re so4 d1 d2 d3 returned by simp
            qed
          qed
        qed
      qed
    qed
  qed
qed

subsection \<open>The runs of pdf_to_images\<close>

lemma new_events_append: "trace w' = trace w @ evs \<Longrightarrow> new_events w w' = evs"
  by (simp add: new_events_def)

lemma pdf_to_images_cases:
  obtains
    (failed) e evs c where
      "fst (pdf_to_images L p out w) = failure_dict (str_exn e)"
      "new_events w (snd (pdf_to_images L p out w)) = evs @ [(c, Some e)]"
      "all_ok evs"
      "\<forall>ev \<in> set (evs @ [(c, Some e)]). script_event ev"
      "saved_files_kept evs (snd (pdf_to_images L p out w))"
      "stdout (snd (pdf_to_images L p out w)) = stdout w"
  | (succeeded) doc pixs where
      "open_returns L p (snd (os_makedirs L out w)) = Inr doc"
      "fst (pdf_to_images L p out w) = success_dict (map (page_image_path out) [0..<page_count doc])"
      "length pixs = page_count doc"
      "new_events w (snd (pdf_to_images L p out w)) =
         [(Makedirs out, None), (Open p, None), (Len doc, None)]
         @ concat (map2 (page_calls doc out) [0..<page_count doc] pixs) @ [(Close doc, None)]"
      "saved_files_kept (concat (map2 (page_calls doc out) [0..<page_count doc] pixs))
         (snd (pdf_to_images L p out w))"
      "stdout (snd (pdf_to_images L p out w)) = stdout w"
proof -
  obtain r w' where b: "pdf_to_images_body L p out w = (r, w')"
    by (cases "pdf_to_images_body L p out w")
  from b show ?thesis
  proof (cases rule: pdf_to_images_body_cases)
    case (failed e evs c)
    with b have "pdf_to_images L p out w = (failure_dict (str_exn e), w')"
      by (simp add: pdf_to_images_def try_except_def)
    with failed show ?thesis
      by (intro that(1) [of e evs c]) (simp_all add: new_events_append)
  next
    case (succeeded doc pixs)
    with b have "pdf_to_images L p out w =
      (success_dict (map (page_image_path out) [0..<page_count doc]), w')"
      by (simp add: pdf_to_images_def try_except_def)
    with succeeded show ?thesis
      by (intro that(2) [of doc pixs]) (simp_all add: new_events_append)
  qed
qed

lemma failure_not_success: "map_of (failure_dict msg) ''success'' \<noteq> Some (PyBool True)"
  by (simp add: failure_dict_def)

lemma all_ok_page_calls: "all_ok (concat (map2 (page_calls doc out) ns pixs))"
  by (auto simp add: all_ok_def list_all_iff page_calls_def dest!: in_set_zipE)

lemma success_cases:
  assumes "map_of (fst (pdf_to_images L p out w)) ''success'' = Some (PyBool True)"
  obtains doc pixs where
      "open_returns L p (snd (os_makedirs L out w)) = Inr doc"
      "fst (pdf_to_images L p out w) = success_dict (map (page_image_path out) [0..<page_count doc])"
      "length pixs = page_count doc"
      "new_events w (snd (pdf_to_images L p out w)) =
         [(Makedirs out, None), (Open p, None), (Len doc, None)]
         @ concat (map2 (page_calls doc out) [0..<page_count doc] pixs) @ [(Close doc, None)]"
      "saved_files_kept (concat (map2 (page_calls doc out) [0..<page_count doc] pixs))
         (snd (pdf_to_images L p out w))"
      "stdout (snd (pdf_to_images L p out w)) = stdout w"
proof (cases rule: pdf_to_images_cases [of L p out w])
  case (failed e evs c)
  with assms failure_not_success show ?thesis by simp
next
  case (succeeded doc pixs)
  then show ?thesis by (rule that)
qed

section \<open>The claims\<close>

text \<open>
  C1. Whenever \<open>pdf_to_images\<close> returns a success result, its \<open>pages\<close> field is the
  number of entries of \<open>image_paths\<close>, and both are the page count of the document that
  \<open>fitz.open\<close> returned.
\<close>

theorem pages_equals_page_count:
  assumes "map_of (fst (pdf_to_images L pdf_path output_dir w)) ''success'' = Some (PyBool True)"
  shows "\<exists>doc image_paths.
     open_returns L pdf_path (snd (os_makedirs L output_dir w)) = Inr doc
     \<and> map_of (fst (pdf_to_images L pdf_path output_dir w)) ''image_paths''
         = Some (PyList (map PyStr image_paths))
     \<and> map_of (fst (pdf_to_images L pdf_path output_dir w)) ''pages''
         = Some (PyInt (int (length image_paths)))
     \<and> length image_paths = page_count doc"
  using assms
proof (cases rule: success_cases)
  case (1 doc pixs)
  let ?paths = "map (page_image_path output_dir) [0..<page_count doc]"
  have "length ?paths = page_count doc" by simp
  with 1(1,2) show ?thesis
    by (intro exI [of _ doc] exI [of _ ?paths]) (simp add: success_dict_def)
qed

theorem pages_equals_page_count_witness:
  "map_of (fst (pdf_to_images example_lib ''in.pdf'' ''out'' example_world)) ''success''
     = Some (PyBool True)
   \<and> map_of (fst (pdf_to_images example_lib ''in.pdf'' ''out'' example_world)) ''pages''
     = Some (PyInt 2)
   \<and> open_returns example_lib ''in.pdf'' (snd (os_makedirs example_lib ''out'' example_world))
     = Inr (Document ''in.pdf'' 2)"
proof -
  have h: "map_of (fst (pdf_to_images example_lib ''in.pdf'' ''out'' example_world)) ''success''
     = Some (PyBool True)" by code_simp
  have o: "open_returns example_lib ''in.pdf'' (snd (os_makedirs example_lib ''out'' example_world))
     = Inr (Document ''in.pdf'' 2)" by code_simp
  from pages_equals_page_count [OF h] o h show ?thesis by auto
qed

lemma distinct_page_image_paths: "distinct (map (page_image_path out) [0..<n])"
  by (simp add: distinct_map inj_on_def) (blast dest: page_image_path_inj)

text \<open>
  C2. On success \<open>image_paths\<close> is in page order: entry \<open>i\<close> is \<open>output_dir\<close> joined with
  \<open>page-{i+1}.png\<close>, for \<open>i\<close> from 0 up to the page count, and no two entries are equal.
\<close>

theorem image_paths_in_page_order:
  assumes "map_of (fst (pdf_to_images L pdf_path output_dir w)) ''success'' = Some (PyBool True)"
  shows "\<exists>doc.
     open_returns L pdf_path (snd (os_makedirs L output_dir w)) = Inr doc
     \<and> map_of (fst (pdf_to_images L pdf_path output_dir w)) ''image_paths''
         = Some (PyList (map (\<lambda>i. PyStr (os_path_join output_dir (''page-'' @ str_nat (i + 1) @ ''.png'')))
              [0..<page_count doc]))
     \<and> distinct (map (\<lambda>i. os_path_join output_dir (''page-'' @ str_nat (i + 1) @ ''.png''))
              [0..<page_count doc])"
  using assms
proof (cases rule: success_cases)
  case (1 doc pixs)
  have eq: "page_image_path output_dir = (\<lambda>i. os_path_join output_dir (''page-'' @ str_nat (i + 1) @ ''.png''))"
    by (rule ext) (simp add: page_image_path_def)
  have d: "distinct (map (page_image_path output_dir) [0..<page_count doc])"
    by (rule distinct_page_image_paths)
  have m: "map_of (fst (pdf_to_images L pdf_path output_dir w)) ''image_paths''
     = Some (PyList (map (\<lambda>i. PyStr (page_image_path output_dir i)) [0..<page_count doc]))"
    using 1(2) by (simp add: success_dict_def comp_def)
  from 1(1) m d show ?thesis unfolding eq by blast
qed

theorem image_paths_in_page_order_witness:
  "map_of (fst (pdf_to_images example_lib ''in.pdf'' ''out'' example_world)) ''success''
     = Some (PyBool True)
   \<and> map_of (fst (pdf_to_images example_lib ''in.pdf'' ''out'' example_world)) ''image_paths''
     = Some (PyList [PyStr ''out/page-1.png'', PyStr ''out/page-2.png''])"
proof -
  have h: "map_of (fst (pdf_to_images example_lib ''in.pdf'' ''out'' example_world)) ''success''
     = Some (PyBool True)" by code_simp
  have o: "open_returns example_lib ''in.pdf'' (snd (os_makedirs example_lib ''out'' example_world))
     = Inr (Document ''in.pdf'' 2)" by code_simp
  have p: "map (\<lambda>i. PyStr (os_path_join ''out'' (''page-'' @ str_nat (i + 1) @ ''.png''))) [0..<2]
     = [PyStr ''out/page-1.png'', PyStr ''out/page-2.png'']" by code_simp
  from image_paths_in_page_order [OF h] o h p show ?thesis by auto
qed

lemma main_converts:
  assumes "length argv = 3" and "os_path_exists (argv ! 1) w"
  shows "main L argv w =
     (0, print_json (fst (pdf_to_images L (argv ! 1) (argv ! 2) w))
           (snd (pdf_to_images L (argv ! 1) (argv ! 2) w)))"
  using assms by (simp add: main_def Let_def split: prod.splits)

lemma stdout_print_json: "stdout (print_json d w) = stdout w @ [d]"
  by (simp add: print_json_def)

lemma new_events_print_json: "new_events w (print_json d w') = new_events w w'"
  by (simp add: print_json_def new_events_def)

lemma stdout_pdf_to_images: "stdout (snd (pdf_to_images L p out w)) = stdout w"
  by (cases rule: pdf_to_images_cases [of L p out w]) simp_all

text \<open>
  C3. With two arguments and an existing \<open>pdf_path\<close>, the exit status is 0 whatever
  \<open>pdf_to_images\<close> returns, and the one line printed is its result.
\<close>

theorem exit_status_0_after_checks:
  assumes "length argv = 3" and "os_path_exists (argv ! 1) w"
  shows "fst (main L argv w) = 0
     \<and> stdout (snd (main L argv w))
         = stdout w @ [fst (pdf_to_images L (argv ! 1) (argv ! 2) w)]"
  using main_converts [OF assms] by (simp add: stdout_print_json stdout_pdf_to_images)

theorem exit_status_0_after_checks_witness:
  "length [''pdf_to_images.py'', ''in.pdf'', ''out''] = 3
   \<and> os_path_exists ([''pdf_to_images.py'', ''in.pdf'', ''out''] ! 1) example_world
   \<and> fst (main example_lib [''pdf_to_images.py'', ''in.pdf'', ''out''] example_world) = 0
   \<and> map_of (last (stdout (snd (main example_lib [''pdf_to_images.py'', ''in.pdf'', ''out''] example_world))))
        ''success'' = Some (PyBool True)
   \<and> fst (main disk_full_lib [''pdf_to_images.py'', ''in.pdf'', ''out''] example_world) = 0
   \<and> stdout (snd (main disk_full_lib [''pdf_to_images.py'', ''in.pdf'', ''out''] example_world))
        = [[(''success'', PyBool False), (''error'', PyStr ''No space left on device'')]]"
proof -
  have l: "length [''pdf_to_images.py'', ''in.pdf'', ''out''] = 3" by simp
  have x: "os_path_exists ([''pdf_to_images.py'', ''in.pdf'', ''out''] ! 1) example_world"
    by code_simp
  have r1: "map_of (fst (pdf_to_images example_lib ''in.pdf'' ''out'' example_world)) ''success''
     = Some (PyBool True)" by code_simp
  have r2: "fst (pdf_to_images disk_full_lib ''in.pdf'' ''out'' example_world)
     = [(''success'', PyBool False), (''error'', PyStr ''No space left on device'')]" by code_simp
  have s: "stdout example_world = []" by code_simp
  from exit_status_0_after_checks [OF l x, of example_lib]
    exit_status_0_after_checks [OF l x, of disk_full_lib] l x r1 r2 s
  show ?thesis by simp
qed

text \<open>
  C5. With two arguments and a \<open>pdf_path\<close> that does not exist, the program prints the
  not-found error with the path, exits with status 1, and makes no library call and no
  change to the file system.
\<close>

theorem missing_pdf_exits_1:
  assumes "length argv = 3" and "\<not> os_path_exists (argv ! 1) w"
  shows "fst (main L argv w) = 1
     \<and> stdout (snd (main L argv w))
         = stdout w @ [[(''success'', PyBool False),
                        (''error'', PyStr (''PDF file not found: '' @ argv ! 1))]]
     \<and> trace (snd (main L argv w)) = trace w
     \<and> fs (snd (main L argv w)) = fs w"
  using assms by (simp add: main_def print_json_def failure_dict_def)

theorem missing_pdf_exits_1_witness:
  "length [''pdf_to_images.py'', ''nope.pdf'', ''out''] = 3
   \<and> \<not> os_path_exists ([''pdf_to_images.py'', ''nope.pdf'', ''out''] ! 1) example_world
   \<and> fst (main example_lib [''pdf_to_images.py'', ''nope.pdf'', ''out''] example_world) = 1
   \<and> stdout (snd (main example_lib [''pdf_to_images.py'', ''nope.pdf'', ''out''] example_world))
       = [[(''success'', PyBool False), (''error'', PyStr ''PDF file not found: nope.pdf'')]]
   \<and> trace (snd (main example_lib [''pdf_to_images.py'', ''nope.pdf'', ''out''] example_world)) = []"
proof -
  have l: "length [''pdf_to_images.py'', ''nope.pdf'', ''out''] = 3" by simp
  have x: "\<not> os_path_exists ([''pdf_to_images.py'', ''nope.pdf'', ''out''] ! 1) example_world"
    by code_simp
  have s: "stdout example_world = []" "trace example_world = []" by code_simp+
  from missing_pdf_exits_1 [OF l x, of example_lib] l x s show ?thesis by simp
qed

text \<open>
  C6. With any number of arguments other than two, the program prints the usage error,
  exits with status 1, and makes no library call and no change to the file system.
\<close>

theorem wrong_argument_count_exits_1:
  assumes "length argv \<noteq> 3"
  shows "fst (main L argv w) = 1
     \<and> stdout (snd (main L argv w))
         = stdout w @ [[(''success'', PyBool False),
                        (''error'', PyStr ''Usage: python pdf_to_images.py <pdf_path> <output_dir>'')]]
     \<and> trace (snd (main L argv w)) = trace w
     \<and> fs (snd (main L argv w)) = fs w"
  using assms by (simp add: main_def print_json_def failure_dict_def usage_message_def)

theorem wrong_argument_count_exits_1_witness:
  "length [''pdf_to_images.py''] \<noteq> 3
   \<and> length [''pdf_to_images.py'', ''in.pdf''] \<noteq> 3
   \<and> length [''pdf_to_images.py'', ''in.pdf'', ''out'', ''extra''] \<noteq> 3
   \<and> fst (main example_lib [''pdf_to_images.py''] example_world) = 1
   \<and> fst (main example_lib [''pdf_to_images.py'', ''in.pdf''] example_world) = 1
   \<and> fst (main example_lib [''pdf_to_images.py'', ''in.pdf'', ''out'', ''extra''] example_world) = 1
   \<and> stdout (snd (main example_lib [''pdf_to_images.py'', ''in.pdf'', ''out'', ''extra''] example_world))
       = [[(''success'', PyBool False),
           (''error'', PyStr ''Usage: python pdf_to_images.py <pdf_path> <output_dir>'')]]
   \<and> trace (snd (main example_lib [''pdf_to_images.py'', ''in.pdf'', ''out'', ''extra''] example_world)) = []"
proof -
  have l0: "length [''pdf_to_images.py''] \<noteq> 3" by simp
  have l1: "length [''pdf_to_images.py'', ''in.pdf''] \<noteq> 3" by simp
  have l3: "length [''pdf_to_images.py'', ''in.pdf'', ''out'', ''extra''] \<noteq> 3" by simp
  have s: "stdout example_world = []" "trace example_world = []" by code_simp+
  from wrong_argument_count_exits_1 [OF l0, of example_lib example_world]
    wrong_argument_count_exits_1 [OF l1, of example_lib example_world]
    wrong_argument_count_exits_1 [OF l3, of example_lib example_world] l0 l1 l3 s
  show ?thesis by simp
qed

lemma all_ok_success_events:
  "all_ok ([(Makedirs out, None), (Open p, None), (Len doc, None)]
     @ concat (map2 (page_calls doc out) ns pixs) @ [(Close doc, None)])"
  using all_ok_page_calls [of doc out ns pixs] by (simp add: all_ok_def)

lemma all_ok_not_raised: "all_ok evs \<Longrightarrow> (c, Some e) \<notin> set evs"
  by (auto simp add: all_ok_def list_all_iff)

lemma raised_cases:
  assumes "(c, Some e) \<in> set (new_events w (snd (pdf_to_images L p out w)))"
  obtains evs where
      "fst (pdf_to_images L p out w) = failure_dict (str_exn e)"
      "new_events w (snd (pdf_to_images L p out w)) = evs @ [(c, Some e)]"
      "all_ok evs"
      "saved_files_kept evs (snd (pdf_to_images L p out w))"
proof (cases rule: pdf_to_images_cases [of L p out w])
  case (failed e' evs c')
  from assms failed(2) all_ok_not_raised [OF failed(3)] have "c' = c" "e' = e" by auto
  with failed show ?thesis by (intro that [of evs]) simp_all
next
  case (succeeded doc pixs)
  with assms all_ok_not_raised [OF all_ok_success_events] show ?thesis by metis
qed

text \<open>
  C4. When a library call raises, it is the last call of the run, no earlier call raised, the
  result is \<open>success: false\<close> with the exception's text as \<open>error\<close> (and no other key),
  and every file saved earlier in the run is on disk with the content saved.
\<close>

theorem exception_aborts_and_keeps_files:
  assumes "(c, Some e) \<in> set (new_events w (snd (pdf_to_images L pdf_path output_dir w)))"
  shows "fst (pdf_to_images L pdf_path output_dir w)
       = [(''success'', PyBool False), (''error'', PyStr (str_exn e))]
     \<and> (\<exists>evs. new_events w (snd (pdf_to_images L pdf_path output_dir w)) = evs @ [(c, Some e)]
          \<and> (\<forall>ev \<in> set evs. snd ev = None))
     \<and> (\<forall>pix q. (Save pix q, None) \<in> set (new_events w (snd (pdf_to_images L pdf_path output_dir w)))
          \<longrightarrow> fs (snd (pdf_to_images L pdf_path output_dir w)) q = Some (File (png_data pix)))"
  using assms
proof (cases rule: raised_cases)
  case (1 evs)
  have a: "fst (pdf_to_images L pdf_path output_dir w)
       = [(''success'', PyBool False), (''error'', PyStr (str_exn e))]"
    using 1(1) by (simp add: failure_dict_def)
  have b: "\<forall>ev \<in> set evs. snd ev = None"
    using 1(3) by (simp add: all_ok_def list_all_iff)
  have c: "\<forall>pix q. (Save pix q, None) \<in> set (new_events w (snd (pdf_to_images L pdf_path output_dir w)))
          \<longrightarrow> fs (snd (pdf_to_images L pdf_path output_dir w)) q = Some (File (png_data pix))"
    using 1(2,4) by (auto simp add: saved_files_kept_def)
  from a b c 1(2) show ?thesis by blast
qed

theorem exception_aborts_and_keeps_files_witness:
  "(Save (Pixmap ''PNG1'') ''out/page-2.png'', Some (PyException ''No space left on device''))
     \<in> set (new_events example_world (snd (pdf_to_images disk_full_lib ''in.pdf'' ''out'' example_world)))
   \<and> (Save (Pixmap ''PNG0'') ''out/page-1.png'', None)
     \<in> set (new_events example_world (snd (pdf_to_images disk_full_lib ''in.pdf'' ''out'' example_world)))
   \<and> fst (pdf_to_images disk_full_lib ''in.pdf'' ''out'' example_world)
     = [(''success'', PyBool False), (''error'', PyStr ''No space left on device'')]
   \<and> fs (snd (pdf_to_images disk_full_lib ''in.pdf'' ''out'' example_world)) ''out/page-1.png''
     = Some (File ''PNG0'')"
proof -
  have h: "(Save (Pixmap ''PNG1'') ''out/page-2.png'', Some (PyException ''No space left on device''))
     \<in> set (new_events example_world (snd (pdf_to_images disk_full_lib ''in.pdf'' ''out'' example_world)))"
    by code_simp
  have s: "(Save (Pixmap ''PNG0'') ''out/page-1.png'', None)
     \<in> set (new_events example_world (snd (pdf_to_images disk_full_lib ''in.pdf'' ''out'' example_world)))"
    by code_simp
  from exception_aborts_and_keeps_files [OF h] h s show ?thesis by auto
qed

lemma get_pixmap_in_page_calls:
  "(GetPixmap pg m, out) \<in> set (concat (map2 (page_calls doc d) ns pixs)) \<Longrightarrow> m = Matrix 2 0 0 2 0 0"
  by (auto simp add: page_calls_def)

lemma page_calls_member:
  assumes "i < n" and "length pixs = n"
  shows "set (page_calls doc d i (pixs ! i)) \<subseteq> set (concat (map2 (page_calls doc d) [0..<n] pixs))"
proof -
  have "zip [0..<n] pixs ! i = (i, pixs ! i)" and "i < length (zip [0..<n] pixs)"
    using assms by simp_all
  then have "(i, pixs ! i) \<in> set (zip [0..<n] pixs)" by (metis nth_mem)
  then show ?thesis by force
qed

text \<open>
  C7. Every \<open>get_pixmap\<close> call of every run is made with the matrix \<open>fitz.Matrix(2, 2)\<close>,
  and a successful run makes that call for every page of the document.
\<close>

theorem every_page_rendered_at_scale_2:
  "(\<forall>pg m out. (GetPixmap pg m, out) \<in> set (new_events w (snd (pdf_to_images L pdf_path output_dir w)))
       \<longrightarrow> m = Matrix 2 0 0 2 0 0 \<and> m = fitz_Matrix 2 2)
   \<and> (map_of (fst (pdf_to_images L pdf_path output_dir w)) ''success'' = Some (PyBool True) \<longrightarrow>
       (\<exists>doc. open_returns L pdf_path (snd (os_makedirs L output_dir w)) = Inr doc
          \<and> (\<forall>i < page_count doc. (GetPixmap (Page doc i) (Matrix 2 0 0 2 0 0), None)
               \<in> set (new_events w (snd (pdf_to_images L pdf_path output_dir w))))))"
proof (intro conjI allI impI)
  fix pg m out
  assume g: "(GetPixmap pg m, out) \<in> set (new_events w (snd (pdf_to_images L pdf_path output_dir w)))"
  show m: "m = Matrix 2 0 0 2 0 0"
  proof (cases rule: pdf_to_images_cases [of L pdf_path output_dir w])
    case (failed e evs c)
    with g have "script_event (GetPixmap pg m, out)" by metis
    then show ?thesis by simp
  next
    case (succeeded doc pixs)
    with g have "(GetPixmap pg m, out) \<in> set (concat (map2 (page_calls doc output_dir) [0..<page_count doc] pixs))"
      by simp
    then show ?thesis by (rule get_pixmap_in_page_calls)
  qed
  then show "m = fitz_Matrix 2 2" by (simp add: fitz_Matrix_def)
next
  assume "map_of (fst (pdf_to_images L pdf_path output_dir w)) ''success'' = Some (PyBool True)"
  then show "\<exists>doc. open_returns L pdf_path (snd (os_makedirs L output_dir w)) = Inr doc
          \<and> (\<forall>i < page_count doc. (GetPixmap (Page doc i) (Matrix 2 0 0 2 0 0), None)
               \<in> set (new_events w (snd (pdf_to_images L pdf_path output_dir w))))"
  proof (cases rule: success_cases)
    case (1 doc pixs)
    have "\<forall>i < page_count doc. (GetPixmap (Page doc i) (Matrix 2 0 0 2 0 0), None)
               \<in> set (new_events w (snd (pdf_to_images L pdf_path output_dir w)))"
    proof (intro allI impI)
      fix i assume i: "i < page_count doc"
      have "(GetPixmap (Page doc i) (Matrix 2 0 0 2 0 0), None) \<in> set (page_calls doc output_dir i (pixs ! i))"
        by (simp add: page_calls_def)
      with page_calls_member [OF i 1(3), of doc output_dir]
      have "(GetPixmap (Page doc i) (Matrix 2 0 0 2 0 0), None)
        \<in> set (concat (map2 (page_calls doc output_dir) [0..<page_count doc] pixs))" by blast
      with 1(4)
      show "(GetPixmap (Page doc i) (Matrix 2 0 0 2 0 0), None)
               \<in> set (new_events w (snd (pdf_to_images L pdf_path output_dir w)))" by simp
    qed
    with 1(1) show ?thesis by blast
  qed
qed

theorem every_page_rendered_at_scale_2_witness:
  "(GetPixmap (Page (Document ''in.pdf'' 2) 1) (Matrix 2 0 0 2 0 0), None)
      \<in> set (new_events example_world (snd (pdf_to_images disk_full_lib ''in.pdf'' ''out'' example_world)))
   \<and> Matrix 2 0 0 2 0 0 = fitz_Matrix 2 2
   \<and> map_of (fst (pdf_to_images example_lib ''in.pdf'' ''out'' example_world)) ''success''
      = Some (PyBool True)
   \<and> (GetPixmap (Page (Document ''in.pdf'' 2) 0) (Matrix 2 0 0 2 0 0), None)
        \<in> set (new_events example_world (snd (pdf_to_images example_lib ''in.pdf'' ''out'' example_world)))
   \<and> (GetPixmap (Page (Document ''in.pdf'' 2) 1) (Matrix 2 0 0 2 0 0), None)
        \<in> set (new_events example_world (snd (pdf_to_images example_lib ''in.pdf'' ''out'' example_world)))"
proof -
  have g: "(GetPixmap (Page (Document ''in.pdf'' 2) 1) (Matrix 2 0 0 2 0 0), None)
      \<in> set (new_events example_world (snd (pdf_to_images disk_full_lib ''in.pdf'' ''out'' example_world)))"
    by code_simp
  have h: "map_of (fst (pdf_to_images example_lib ''in.pdf'' ''out'' example_world)) ''success''
     = Some (PyBool True)" by code_simp
  have o: "open_returns example_lib ''in.pdf'' (snd (os_makedirs example_lib ''out'' example_world))
     = Inr (Document ''in.pdf'' 2)" by code_simp
  from every_page_rendered_at_scale_2 [of example_world disk_full_lib "''in.pdf''" "''out''"] g
  have 1: "Matrix 2 0 0 2 0 0 = fitz_Matrix 2 2" by blast
  from every_page_rendered_at_scale_2 [of example_world example_lib "''in.pdf''" "''out''"] h o
  have 2: "\<forall>i < 2. (GetPixmap (Page (Document ''in.pdf'' 2) i) (Matrix 2 0 0 2 0 0), None)
        \<in> set (new_events example_world (snd (pdf_to_images example_lib ''in.pdf'' ''out'' example_world)))"
    by auto
  from 2 have 3: "(GetPixmap (Page (Document ''in.pdf'' 2) 0) (Matrix 2 0 0 2 0 0), None)
        \<in> set (new_events example_world (snd (pdf_to_images example_lib ''in.pdf'' ''out'' example_world)))"
    and 4: "(GetPixmap (Page (Document ''in.pdf'' 2) 1) (Matrix 2 0 0 2 0 0), None)
        \<in> set (new_events example_world (snd (pdf_to_images example_lib ''in.pdf'' ''out'' example_world)))"
    by simp_all
  from g 1 h 3 4 show ?thesis by (intro conjI)
qed

lemma no_close_in_page_calls:
  "(Close d, out) \<notin> set (concat (map2 (page_calls doc dir) ns pixs))"
  by (auto simp add: page_calls_def)

lemma save_in_page_calls:
  assumes "i < n" and "length pixs = n"
  shows "(Save (pixs ! i) (page_image_path dir i), None)
     \<in> set (concat (map2 (page_calls doc dir) [0..<n] pixs))"
proof -
  have "(Save (pixs ! i) (page_image_path dir i), None) \<in> set (page_calls doc dir i (pixs ! i))"
    by (simp add: page_calls_def)
  with page_calls_member [OF assms, of doc dir] show ?thesis by blast
qed

lemma save_of_page_in_page_calls:
  assumes "i < n" and "length pixs = n"
  shows "\<exists>pix. (Save pix (os_path_join dir (''page-'' @ str_nat (i + 1) @ ''.png'')), None)
     \<in> set (concat (map2 (page_calls doc dir) [0..<n] pixs))"
proof -
  have "(Save (pixs ! i) (page_image_path dir i), None)
     \<in> set (concat (map2 (page_calls doc dir) [0..<n] pixs))"
    using assms by (rule save_in_page_calls)
  then show ?thesis
    unfolding page_image_path_def by (rule exI [of _ "pixs ! i"])
qed

text \<open>
  C8. In a successful run the document is closed exactly once: the close is the last call
  of the run, it follows the save of every page, and no other close is called. In a run
  that does not succeed no close returns, so the document is never closed.
\<close>

theorem closed_once_on_success_only:
  "(map_of (fst (pdf_to_images L pdf_path output_dir w)) ''success'' = Some (PyBool True) \<longrightarrow>
      (\<exists>doc evs. open_returns L pdf_path (snd (os_makedirs L output_dir w)) = Inr doc
         \<and> new_events w (snd (pdf_to_images L pdf_path output_dir w)) = evs @ [(Close doc, None)]
         \<and> (\<forall>d out. (Close d, out) \<notin> set evs)
         \<and> (\<forall>i < page_count doc. \<exists>pix.
               (Save pix (os_path_join output_dir (''page-'' @ str_nat (i + 1) @ ''.png'')), None)
                 \<in> set evs)))
   \<and> (map_of (fst (pdf_to_images L pdf_path output_dir w)) ''success'' \<noteq> Some (PyBool True) \<longrightarrow>
      (\<forall>d. (Close d, None) \<notin> set (new_events w (snd (pdf_to_images L pdf_path output_dir w)))))"
proof (intro conjI impI)
  assume "map_of (fst (pdf_to_images L pdf_path output_dir w)) ''success'' = Some (PyBool True)"
  then show "\<exists>doc evs. open_returns L pdf_path (snd (os_makedirs L output_dir w)) = Inr doc
         \<and> new_events w (snd (pdf_to_images L pdf_path output_dir w)) = evs @ [(Close doc, None)]
         \<and> (\<forall>d out. (Close d, out) \<notin> set evs)
         \<and> (\<forall>i < page_count doc. \<exists>pix.
               (Save pix (os_path_join output_dir (''page-'' @ str_nat (i + 1) @ ''.png'')), None)
                 \<in> set evs)"
  proof (cases rule: success_cases)
    case (1 doc pixs)
    let ?pages = "concat (map2 (page_calls doc output_dir) [0..<page_count doc] pixs)"
    let ?evs = "[(Makedirs output_dir, None), (Open pdf_path, None), (Len doc, None)] @ ?pages"
    have a: "new_events w (snd (pdf_to_images L pdf_path output_dir w)) = ?evs @ [(Close doc, None)]"
      using 1(4) by simp
    have b: "\<forall>d out. (Close d, out) \<notin> set ?evs"
      using no_close_in_page_calls [of _ _ doc output_dir "[0..<page_count doc]" pixs] by simp
    have c: "\<forall>i < page_count doc. \<exists>pix.
         (Save pix (os_path_join output_dir (''page-'' @ str_nat (i + 1) @ ''.png'')), None) \<in> set ?evs"
    proof (intro allI impI)
      fix i assume "i < page_count doc"
      from save_of_page_in_page_calls [OF this 1(3), of output_dir doc]
      obtain pix where "(Save pix (os_path_join output_dir (''page-'' @ str_nat (i + 1) @ ''.png'')), None)
        \<in> set ?pages" ..
      then have "(Save pix (os_path_join output_dir (''page-'' @ str_nat (i + 1) @ ''.png'')), None)
        \<in> set ?evs" by (simp only: set_append Un_iff simp_thms)
      then show "\<exists>pix. (Save pix (os_path_join output_dir (''page-'' @ str_nat (i + 1) @ ''.png'')), None)
        \<in> set ?evs" by (rule exI [of _ pix])
    qed
    show ?thesis
      by (rule exI [of _ doc], rule exI [of _ ?evs]) (intro conjI 1(1) a b c)
  qed
next
  assume ns: "map_of (fst (pdf_to_images L pdf_path output_dir w)) ''success'' \<noteq> Some (PyBool True)"
  show "\<forall>d. (Close d, None) \<notin> set (new_events w (snd (pdf_to_images L pdf_path output_dir w)))"
  proof (cases rule: pdf_to_images_cases [of L pdf_path output_dir w])
    case (failed e evs c)
    show ?thesis
    proof
      fix d
      show "(Close d, None) \<notin> set (new_events w (snd (pdf_to_images L pdf_path output_dir w)))"
      proof
        assume "(Close d, None) \<in> set (new_events w (snd (pdf_to_images L pdf_path output_dir w)))"
        with failed(2,4) have "script_event (Close d, None)" by metis
        then show False by simp
      qed
    qed
  next
    case (succeeded doc pixs)
    with ns show ?thesis by (simp add: success_dict_def)
  qed
qed

theorem closed_once_on_success_only_witness:
  "map_of (fst (pdf_to_images example_lib ''in.pdf'' ''out'' example_world)) ''success''
      = Some (PyBool True)
   \<and> (\<exists>evs. new_events example_world (snd (pdf_to_images example_lib ''in.pdf'' ''out'' example_world))
         = evs @ [(Close (Document ''in.pdf'' 2), None)]
       \<and> (\<forall>d out. (Close d, out) \<notin> set evs)
       \<and> (\<exists>pix. (Save pix ''out/page-1.png'', None) \<in> set evs)
       \<and> (\<exists>pix. (Save pix ''out/page-2.png'', None) \<in> set evs))
   \<and> map_of (fst (pdf_to_images disk_full_lib ''in.pdf'' ''out'' example_world)) ''success''
      \<noteq> Some (PyBool True)
   \<and> (Open ''in.pdf'', None)
      \<in> set (new_events example_world (snd (pdf_to_images disk_full_lib ''in.pdf'' ''out'' example_world)))
   \<and> (\<forall>d. (Close d, None)
      \<notin> set (new_events example_world (snd (pdf_to_images disk_full_lib ''in.pdf'' ''out'' example_world))))"
proof -
  have h: "map_of (fst (pdf_to_images example_lib ''in.pdf'' ''out'' example_world)) ''success''
     = Some (PyBool True)" by code_simp
  have o: "open_returns example_lib ''in.pdf'' (snd (os_makedirs example_lib ''out'' example_world))
     = Inr (Document ''in.pdf'' 2)" by code_simp
  have f: "map_of (fst (pdf_to_images disk_full_lib ''in.pdf'' ''out'' example_world)) ''success''
      \<noteq> Some (PyBool True)" by code_simp
  have p: "(Open ''in.pdf'', None)
      \<in> set (new_events example_world (snd (pdf_to_images disk_full_lib ''in.pdf'' ''out'' example_world)))"
    by code_simp
  have p1: "os_path_join ''out'' (''page-'' @ str_nat (0 + 1) @ ''.png'') = ''out/page-1.png''"
    by code_simp
  have p2: "os_path_join ''out'' (''page-'' @ str_nat (1 + 1) @ ''.png'') = ''out/page-2.png''"
    by code_simp
  from closed_once_on_success_only [of example_lib "''in.pdf''" "''out''" example_world] h o
  obtain evs where e1: "new_events example_world (snd (pdf_to_images example_lib ''in.pdf'' ''out'' example_world))
         = evs @ [(Close (Document ''in.pdf'' 2), None)]"
    and e2: "\<forall>d out. (Close d, out) \<notin> set evs"
    and e3: "\<forall>i < 2. \<exists>pix.
            (Save pix (os_path_join ''out'' (''page-'' @ str_nat (i + 1) @ ''.png'')), None) \<in> set evs"
    by auto
  from e3 have "\<exists>pix. (Save pix (os_path_join ''out'' (''page-'' @ str_nat (0 + 1) @ ''.png'')), None) \<in> set evs"
    by (rule allE [of _ 0]) simp
  then have s1: "\<exists>pix. (Save pix ''out/page-1.png'', None) \<in> set evs" by (simp only: p1)
  from e3 have "\<exists>pix. (Save pix (os_path_join ''out'' (''page-'' @ str_nat (1 + 1) @ ''.png'')), None) \<in> set evs"
    by (rule allE [of _ 1]) simp
  then have s2: "\<exists>pix. (Save pix ''out/page-2.png'', None) \<in> set evs" by (simp only: p2)
  from e1 e2 s1 s2
  have 1: "\<exists>evs. new_events example_world (snd (pdf_to_images example_lib ''in.pdf'' ''out'' example_world))
         = evs @ [(Close (Document ''in.pdf'' 2), None)]
       \<and> (\<forall>d out. (Close d, out) \<notin> set evs)
       \<and> (\<exists>pix. (Save pix ''out/page-1.png'', None) \<in> set evs)
       \<and> (\<exists>pix. (Save pix ''out/page-2.png'', None) \<in> set evs)"
    by (intro exI [of _ evs] conjI)
  from closed_once_on_success_only [of disk_full_lib "''in.pdf''" "''out''" example_world] f
  have 2: "\<forall>d. (Close d, None)
      \<notin> set (new_events example_world (snd (pdf_to_images disk_full_lib ''in.pdf'' ''out'' example_world)))"
    by blast
  from h 1 f p 2 show ?thesis by (intro conjI)
qed

text \<open>
  C9. \<open>pdf_to_images\<close> always returns a dict, and it has one of two shapes: the keys
  \<open>success\<close> (true), \<open>pages\<close> and \<open>image_paths\<close>, or the keys \<open>success\<close> (false) and
  \<open>error\<close>.
\<close>

theorem result_is_success_or_failure_dict:
  "(\<exists>image_paths. fst (pdf_to_images L pdf_path output_dir w)
        = [(''success'', PyBool True),
           (''pages'', PyInt (int (length image_paths))),
           (''image_paths'', PyList (map PyStr image_paths))])
   \<or> (\<exists>msg. fst (pdf_to_images L pdf_path output_dir w)
        = [(''success'', PyBool False), (''error'', PyStr msg)])"
proof (cases rule: pdf_to_images_cases [of L pdf_path output_dir w])
  case (failed e evs c)
  then show ?thesis by (simp add: failure_dict_def)
next
  case (succeeded doc pixs)
  then have "fst (pdf_to_images L pdf_path output_dir w)
        = [(''success'', PyBool True),
           (''pages'', PyInt (int (length (map (page_image_path output_dir) [0..<page_count doc])))),
           (''image_paths'', PyList (map PyStr (map (page_image_path output_dir) [0..<page_count doc])))]"
    by (simp only: success_dict_def)
  then show ?thesis by blast
qed

lemma new_events_not_Nil: "new_events w (snd (pdf_to_images L p out w)) \<noteq> []"
  by (cases rule: pdf_to_images_cases [of L p out w]) simp_all

text \<open>
  C10. When \<open>pdf_path\<close> is a directory, the existence check passes: the conversion is
  attempted, the exit status is 0, the line printed is the result of \<open>pdf_to_images\<close>,
  and when a library call raised, that line is \<open>success: false\<close> with the exception's text.
\<close>

theorem directory_passes_existence_check:
  assumes "length argv = 3" and "fs w (argv ! 1) = Some Dir"
  shows "os_path_exists (argv ! 1) w
     \<and> fst (main L argv w) = 0
     \<and> stdout (snd (main L argv w))
         = stdout w @ [fst (pdf_to_images L (argv ! 1) (argv ! 2) w)]
     \<and> new_events w (snd (main L argv w)) \<noteq> []
     \<and> (\<forall>c e. (c, Some e) \<in> set (new_events w (snd (main L argv w))) \<longrightarrow>
          last (stdout (snd (main L argv w)))
            = [(''success'', PyBool False), (''error'', PyStr (str_exn e))])"
proof -
  have x: "os_path_exists (argv ! 1) w" using assms(2) by (simp add: os_path_exists_def)
  note m = main_converts [OF assms(1) x, of L]
  have ne: "new_events w (snd (main L argv w))
     = new_events w (snd (pdf_to_images L (argv ! 1) (argv ! 2) w))"
    by (simp add: m new_events_print_json)
  have so: "stdout (snd (main L argv w)) = stdout w @ [fst (pdf_to_images L (argv ! 1) (argv ! 2) w)]"
    by (simp add: m stdout_print_json stdout_pdf_to_images)
  have r: "\<forall>c e. (c, Some e) \<in> set (new_events w (snd (main L argv w))) \<longrightarrow>
          last (stdout (snd (main L argv w)))
            = [(''success'', PyBool False), (''error'', PyStr (str_exn e))]"
  proof (intro allI impI)
    fix c e assume "(c, Some e) \<in> set (new_events w (snd (main L argv w)))"
    then have "(c, Some e) \<in> set (new_events w (snd (pdf_to_images L (argv ! 1) (argv ! 2) w)))"
      by (simp only: ne)
    then have "fst (pdf_to_images L (argv ! 1) (argv ! 2) w) = failure_dict (str_exn e)"
      by (cases rule: raised_cases)
    then show "last (stdout (snd (main L argv w)))
            = [(''success'', PyBool False), (''error'', PyStr (str_exn e))]"
      by (simp add: so failure_dict_def)
  qed
  have f: "fst (main L argv w) = 0" by (simp only: m fst_conv)
  have n: "new_events w (snd (main L argv w)) \<noteq> []"
    unfolding ne by (rule new_events_not_Nil)
  show ?thesis by (intro conjI x f so n r)
qed

theorem directory_passes_existence_check_witness:
  "length [''pdf_to_images.py'', ''docs'', ''out''] = 3
   \<and> fs example_world ([''pdf_to_images.py'', ''docs'', ''out''] ! 1) = Some Dir
   \<and> fst (main example_lib [''pdf_to_images.py'', ''docs'', ''out''] example_world) = 0
   \<and> (Open ''docs'', Some (PyException ''cannot open file''))
       \<in> set (new_events example_world (snd (main example_lib [''pdf_to_images.py'', ''docs'', ''out''] example_world)))
   \<and> last (stdout (snd (main example_lib [''pdf_to_images.py'', ''docs'', ''out''] example_world)))
       = [(''success'', PyBool False), (''error'', PyStr ''cannot open file'')]"
proof -
  have l: "length [''pdf_to_images.py'', ''docs'', ''out''] = 3" by simp
  have d: "fs example_world ([''pdf_to_images.py'', ''docs'', ''out''] ! 1) = Some Dir" by code_simp
  have e: "(Open ''docs'', Some (PyException ''cannot open file''))
       \<in> set (new_events example_world (snd (main example_lib [''pdf_to_images.py'', ''docs'', ''out''] example_world)))"
    by code_simp
  from directory_passes_existence_check [OF l d, of example_lib] e
  have "fst (main example_lib [''pdf_to_images.py'', ''docs'', ''out''] example_world) = 0"
    and "last (stdout (snd (main example_lib [''pdf_to_images.py'', ''docs'', ''out''] example_world)))
       = [(''success'', PyBool False), (''error'', PyStr (str_exn (PyException ''cannot open file'')))]"
    by blast+
  with l d e show ?thesis by simp
qed

end
